theory Spec2Isabelle
  imports
    Main
    "HOL-Library.Char_ord"
    "HOL-Library.List_Lexorder"
    "HOL-Library.Product_Lexorder"
    "HOL-Library.Multiset"
begin

section \<open>Data model of \<^verbatim>\<open>src/app/credExplorer/RepositorySelect.js\<close>\<close>

text \<open>
  A JavaScript string is modelled as a \<^typ>\<open>string\<close> (a list of characters); the order on
  strings is the lexicographic order on the character codes, which is what JavaScript's
  \<^verbatim>\<open><\<close> computes on the code units of two strings.
\<close>

text \<open>The Flow type \<^verbatim>\<open>Repo = {|+name: string, +owner: string|}\<close>.\<close>

record repo =
  owner :: string
  name :: string

text \<open>
  A thrown JavaScript value. The three errors the file itself throws keep the string they
  quote; \<open>Rejected\<close> is a value thrown (or a promise rejected) by a collaborator: the
  fetch, the body decoder, \<^verbatim>\<open>fromJSON\<close> or the local store.
\<close>

datatype error =
    InvalidRepositoryOwner string
  | InvalidRepositoryName string
  | InvalidRepoString string
  | Rejected string

text \<open>
  A value read back from the local store: any JSON value. An object is the list of its
  properties in insertion order. Numbers are never inspected by this file, so their payload
  is an integer.
\<close>

datatype jsvalue =
    JNull
  | JBool bool
  | JNumber int
  | JString string
  | JArray "jsvalue list"
  | JObject "(string \<times> jsvalue) list"

text \<open>The tagged union \<^verbatim>\<open>Status\<close> (lines 13 to 21).\<close>

datatype status =
    LOADING
  | VALID (availableRepos: "repo list") (selectedRepo: repo)
  | NO_REPOS
  | FAILURE

definition REPO_KEY :: string where
  "REPO_KEY = ''selectedRepository''"

section \<open>The repository codec\<close>

text \<open>The character class \<^verbatim>\<open>[A-Za-z0-9_-]\<close>.\<close>

definition validChar :: "char \<Rightarrow> bool" where
  "validChar c =
     ((CHR ''A'' \<le> c \<and> c \<le> CHR ''Z'') \<or> (CHR ''a'' \<le> c \<and> c \<le> CHR ''z'') \<or>
      (CHR ''0'' \<le> c \<and> c \<le> CHR ''9'') \<or> c = CHR ''_'' \<or> c = CHR ''-'')"

text \<open>
  \<^verbatim>\<open>s.match(/^[A-Za-z0-9_-]+$/)\<close> is not null: without the multiline flag the anchors are
  the two ends of the input, so the whole string is one or more characters of the class.
\<close>

definition validRe :: "string \<Rightarrow> bool" where
  "validRe s = (s \<noteq> [] \<and> list_all validChar s)"

text \<open>\<^verbatim>\<open>validateRepo\<close> (lines 69 to 77): the owner is checked first.\<close>

definition validateRepo :: "repo \<Rightarrow> error + unit" where
  "validateRepo r =
     (if \<not> validRe (owner r) then Inl (InvalidRepositoryOwner (owner r))
      else if \<not> validRe (name r) then Inl (InvalidRepositoryName (name r))
      else Inr ())"

text \<open>
  \<^verbatim>\<open>x.split(sep)\<close> for a separator of one character: the pieces between the
  occurrences of the separator, empty pieces included; the empty string gives one empty
  piece.
\<close>

fun split :: "string \<Rightarrow> char \<Rightarrow> string list" where
  "split [] sep = [[]]"
| "split (c # cs) sep =
     (if c = sep then [] # split cs sep
      else (case split cs sep of
              [] \<Rightarrow> [[c]]
            | p # ps \<Rightarrow> (c # p) # ps))"

text \<open>\<^verbatim>\<open>repoStringToRepo\<close> (lines 79 to 87).\<close>

definition repoStringToRepo :: "string \<Rightarrow> error + repo" where
  "repoStringToRepo x =
     (let pieces = split x (CHR ''/'') in
      if length pieces \<noteq> 2 then Inl (InvalidRepoString x)
      else
        (let r = \<lparr>owner = pieces ! 0, name = pieces ! 1\<rparr> in
         case validateRepo r of
           Inl e \<Rightarrow> Inl e
         | Inr _ \<Rightarrow> Inr r))"

text \<open>
  The token of a repository in the selector, the template literal
  \<^verbatim>\<open>`${owner}/${name}`\<close> of \<^verbatim>\<open>renderSelect\<close> (lines 147 and 155).
\<close>

definition repoString :: "repo \<Rightarrow> string" where
  "repoString r = owner r @ ''/'' @ name r"

section \<open>Collaborators\<close>

text \<open>
  Modelled from the spec: \<^verbatim>\<open>NullUtil.orElse\<close> (\<^verbatim>\<open>src/util/null.js\<close> is not among the
  sources): the first argument unless it is null or undefined, then the second. The result of
  \<^verbatim>\<open>Array.prototype.find\<close> is an option: \<open>None\<close> is \<^verbatim>\<open>undefined\<close>.
\<close>

definition orElse :: "'a option \<Rightarrow> 'a \<Rightarrow> 'a" where
  "orElse x defaultValue = (case x of Some v \<Rightarrow> v | None \<Rightarrow> defaultValue)"

text \<open>
  \<^verbatim>\<open>lodash.isequal\<close> of a \<^verbatim>\<open>Repo\<close> object and a stored value: the value is an object
  with as many own properties as the repository has (two), and each property of the repository
  is a property of the value, with the identical string.
\<close>

definition deepEqual :: "repo \<Rightarrow> jsvalue \<Rightarrow> bool" where
  "deepEqual x v =
     (case v of
        JObject props \<Rightarrow>
          length props = 2 \<and>
          map_of props ''owner'' = Some (JString (owner x)) \<and>
          map_of props ''name'' = Some (JString (name x))
      | _ \<Rightarrow> False)"

text \<open>
  \<^verbatim>\<open>lodash.sortby\<close> with two iteratees: a stable sort, ascending by the first key and,
  among equal first keys, by the second.
\<close>

definition sortBy :: "'a list \<Rightarrow> ('a \<Rightarrow> string) \<Rightarrow> ('a \<Rightarrow> string) \<Rightarrow> 'a list" where
  "sortBy xs f g = sort_key (\<lambda>r. (f r, g r)) xs"

text \<open>The \<^verbatim>\<open>Response\<close> of the fetch: its \<^verbatim>\<open>ok\<close> flag and what \<^verbatim>\<open>json()\<close>
  resolves to, or rejects with.\<close>

record response =
  ok :: bool
  json :: "error + jsvalue"

text \<open>
  What \<^verbatim>\<open>loadStatus\<close> reaches through its imports and globals: the endpoint constant
  \<^verbatim>\<open>REPO_REGISTRY_API\<close> and the decoder \<^verbatim>\<open>fromJSON\<close> of \<^verbatim>\<open>repoRegistry.js\<close> (not among
  the sources, so both are parameters), and the global \<^verbatim>\<open>fetch\<close>. Each call either
  returns or throws.
\<close>

record env =
  REPO_REGISTRY_API :: string
  fetch :: "string \<Rightarrow> error + response"
  fromJSON :: "jsvalue \<Rightarrow> error + repo list"

text \<open>
  Modelled from the spec: the interface \<^verbatim>\<open>LocalStore\<close> (\<^verbatim>\<open>src/app/localStore.js\<close> is not
  among the sources), a key-value store with \<^verbatim>\<open>get(key, default)\<close> and
  \<^verbatim>\<open>set(key, value)\<close>, as two methods over the contents \<open>'s\<close> of the store. A read may
  throw; a write returns the new contents.
\<close>

record 's localStore =
  get :: "'s \<Rightarrow> string \<Rightarrow> jsvalue \<Rightarrow> error + jsvalue"
  set' :: "'s \<Rightarrow> string \<Rightarrow> jsvalue \<Rightarrow> 's"

text \<open>A store in memory: a map from keys to values, whose reads never throw.\<close>

definition memoryStore :: "(string \<rightharpoonup> jsvalue) localStore" where
  "memoryStore =
     \<lparr>get = (\<lambda>m k whenUnavailable. Inr (case m k of None \<Rightarrow> whenUnavailable | Some v \<Rightarrow> v)),
      set' = (\<lambda>m k v. m(k \<mapsto> v))\<rparr>"

text \<open>The object \<^verbatim>\<open>{owner, name}\<close> as a stored value.\<close>

definition repoValue :: "repo \<Rightarrow> jsvalue" where
  "repoValue r = JObject [(''owner'', JString (owner r)), (''name'', JString (name r))]"

section \<open>The resolver \<^verbatim>\<open>loadStatus\<close>\<close>

text \<open>
  The body of the \<^verbatim>\<open>try\<close> block (lines 91 to 107). \<open>Inl\<close> is an exception that
  reaches the \<^verbatim>\<open>catch\<close>. The element read at \<^verbatim>\<open>availableRepos.length - 1\<close> is the last
  one: the list is not empty there. The locals \<^verbatim>\<open>availableRepos\<close> and \<^verbatim>\<open>selectedRepo\<close> are
  \<open>repos\<close> and \<open>selected\<close> here, the longer names being the fields of the status.
\<close>

definition loadStatus_try :: "env \<Rightarrow> 's localStore \<Rightarrow> 's \<Rightarrow> error + status" where
  "loadStatus_try e localStore s =
     (case fetch e (REPO_REGISTRY_API e) of
        Inl err \<Rightarrow> Inl err
      | Inr response \<Rightarrow>
          if \<not> ok response then Inr FAILURE
          else
            (case json response of
               Inl err \<Rightarrow> Inl err
             | Inr j \<Rightarrow>
                 (case fromJSON e j of
                    Inl err \<Rightarrow> Inl err
                  | Inr repos \<Rightarrow>
                      if length repos = 0 then Inr NO_REPOS
                      else
                        (case get localStore s REPO_KEY JNull of
                           Inl err \<Rightarrow> Inl err
                         | Inr localStoreRepo \<Rightarrow>
                             (let selected =
                                    orElse (find (\<lambda>x. deepEqual x localStoreRepo) repos)
                                      (last repos);
                                  sortedRepos = sortBy repos owner name
                              in Inr (VALID sortedRepos selected))))))"

text \<open>\<^verbatim>\<open>loadStatus\<close> (lines 89 to 112): the \<^verbatim>\<open>catch\<close> turns every exception into
  \<^verbatim>\<open>FAILURE\<close>.\<close>

definition loadStatus :: "env \<Rightarrow> 's localStore \<Rightarrow> 's \<Rightarrow> status" where
  "loadStatus e localStore s =
     (case loadStatus_try e localStore s of
        Inl err \<Rightarrow> FAILURE
      | Inr st \<Rightarrow> st)"

section \<open>The controller\<close>

text \<open>
  The component \<^verbatim>\<open>RepositorySelect\<close> with what it acts on: its state \<^verbatim>\<open>status\<close>, the
  contents of the local store of its props, and the repositories its prop \<^verbatim>\<open>onChange\<close> (the
  callback of the host application) has been called with, oldest first. The callback and the
  write to the store return normally.
\<close>

record 's component =
  status :: status
  store :: 's
  notified :: "repo list"

definition constructor :: "'s \<Rightarrow> 's component" where
  "constructor s = \<lparr>status = LOADING, store = s, notified = []\<rparr>"

text \<open>\<^verbatim>\<open>componentDidMount\<close> (lines 36 to 43), once the promise of \<^verbatim>\<open>loadStatus\<close> has
  settled.\<close>

definition componentDidMount :: "env \<Rightarrow> 's localStore \<Rightarrow> 's component \<Rightarrow> 's component" where
  "componentDidMount e localStore c =
     (let st = loadStatus e localStore (store c);
          c' = c\<lparr>status := st\<rparr>
      in case st of
           VALID repos sel \<Rightarrow> c'\<lparr>notified := notified c' @ [sel]\<rparr>
         | _ \<Rightarrow> c')"

text \<open>\<^verbatim>\<open>RepositorySelect.onChange\<close> (lines 45 to 52).\<close>

definition onChange :: "repo \<Rightarrow> 's component \<Rightarrow> 's component" where
  "onChange sel c =
     (let c' = (case status c of
                  VALID repos old \<Rightarrow> c\<lparr>status := VALID repos sel\<rparr>
                | _ \<Rightarrow> c)
      in c'\<lparr>notified := notified c' @ [sel]\<rparr>)"

text \<open>
  The \<^verbatim>\<open>onChange\<close> that \<^verbatim>\<open>LocalStoreRepositorySelect.render\<close> hands to its children
  (lines 126 to 129), its own prop being \<^verbatim>\<open>RepositorySelect.onChange\<close> (line 57): this is
  what a selection of the user runs.
\<close>

definition onUserSelect :: "'s localStore \<Rightarrow> repo \<Rightarrow> 's component \<Rightarrow> 's component" where
  "onUserSelect localStore r c =
     (let c' = onChange r c
      in c'\<lparr>store := set' localStore (store c') REPO_KEY (repoValue r)\<rparr>)"

text \<open>
  \<^verbatim>\<open>PureRepositorySelect\<close>: the tokens of the options of the \<^verbatim>\<open>select\<close> element
  (lines 141 to 166 and 172 to 189). \<open>None\<close>: no \<^verbatim>\<open>select\<close> is rendered, which is so unless
  the status is \<^verbatim>\<open>VALID\<close>.
\<close>

definition renderSelect :: "status \<Rightarrow> string list option" where
  "renderSelect st =
     (case st of
        VALID repos sel \<Rightarrow> Some (map repoString repos)
      | _ \<Rightarrow> None)"

text \<open>The handler of the \<^verbatim>\<open>select\<close> element (lines 148 to 152): an invalid token throws.\<close>

definition select_onChange ::
  "'s localStore \<Rightarrow> string \<Rightarrow> 's component \<Rightarrow> error + 's component" where
  "select_onChange localStore token c =
     (case repoStringToRepo token of
        Inl err \<Rightarrow> Inl err
      | Inr r \<Rightarrow> Inr (onUserSelect localStore r c))"

section \<open>A registry for the examples\<close>

text \<open>
  An environment in which the fetch succeeds and the body decodes to the list \<open>rs\<close>, and one
  in which the registry answers with a status that is not a success.
\<close>

definition registry :: "repo list \<Rightarrow> env" where
  "registry rs =
     \<lparr>REPO_REGISTRY_API = ''/api/repos'',
      fetch = (\<lambda>url. Inr \<lparr>ok = True, json = Inr (JArray [])\<rparr>),
      fromJSON = (\<lambda>j. Inr rs)\<rparr>"

definition registryDown :: env where
  "registryDown =
     \<lparr>REPO_REGISTRY_API = ''/api/repos'',
      fetch = (\<lambda>url. Inr \<lparr>ok = False, json = Inl (Rejected ''no body'')\<rparr>),
      fromJSON = (\<lambda>j. Inr [])\<rparr>"

section \<open>Properties of the codec\<close>

lemma split_nonempty: "split x sep \<noteq> []"
  by (induction x) (auto split: list.splits)

lemma length_split: "length (split x sep) = Suc (count_list x sep)"
  by (induction x) (auto split: list.splits simp: split_nonempty)

lemma split_no_sep: "sep \<notin> set x \<Longrightarrow> split x sep = [x]"
  by (induction x) auto

lemma split_one_sep:
  "count_list x sep = 1 \<Longrightarrow>
     split x sep = [takeWhile (\<lambda>c. c \<noteq> sep) x, tl (dropWhile (\<lambda>c. c \<noteq> sep) x)]"
proof (induction x)
  case Nil
  then show ?case by simp
next
  case (Cons c cs)
  show ?case
  proof (cases "c = sep")
    case True
    with Cons.prems have "count_list cs sep = 0" by simp
    then have "sep \<notin> set cs" by (simp add: count_list_0_iff)
    with True show ?thesis by (simp add: split_no_sep)
  next
    case False
    with Cons show ?thesis by simp
  qed
qed

lemma split_format: "sep \<notin> set a \<Longrightarrow> sep \<notin> set b \<Longrightarrow> split (a @ sep # b) sep = [a, b]"
  by (induction a) (auto simp: split_no_sep)

lemma validChar_iff:
  "validChar c \<longleftrightarrow> c \<in> set ''ABCDEFGHIJKLMNOPQRSTUVWXYZabcdefghijklmnopqrstuvwxyz0123456789_-''"
proof (cases c)
  case (Char b0 b1 b2 b3 b4 b5 b6 b7)
  then show ?thesis
    by (cases b0; cases b1; cases b2; cases b3; cases b4; cases b5; cases b6; cases b7;
        simp add: validChar_def)
qed

lemma validRe_iff:
  "validRe s \<longleftrightarrow>
     s \<noteq> [] \<and> set s \<subseteq> set ''ABCDEFGHIJKLMNOPQRSTUVWXYZabcdefghijklmnopqrstuvwxyz0123456789_-''"
  unfolding validRe_def list_all_iff validChar_iff by blast

lemma validRe_no_slash: "validRe s \<Longrightarrow> CHR ''/'' \<notin> set s"
proof
  assume "validRe s" and "CHR ''/'' \<in> set s"
  then have "validChar (CHR ''/'')" by (simp add: validRe_def list_all_iff)
  then show False by (simp add: validChar_def)
qed

text \<open>
  Claim C7. For every repository whose owner and name are each one or more characters of the
  class \<^verbatim>\<open>[A-Za-z0-9_-]\<close>, parsing the token \<^verbatim>\<open>owner/name\<close> made from it gives the
  repository back.
\<close>

theorem repoStringToRepo_repoString:
  fixes r :: repo
  assumes "owner r \<noteq> []"
    and "set (owner r) \<subseteq> set ''ABCDEFGHIJKLMNOPQRSTUVWXYZabcdefghijklmnopqrstuvwxyz0123456789_-''"
    and "name r \<noteq> []"
    and "set (name r) \<subseteq> set ''ABCDEFGHIJKLMNOPQRSTUVWXYZabcdefghijklmnopqrstuvwxyz0123456789_-''"
  shows "repoStringToRepo (repoString r) = Inr r"
proof -
  from assms have v: "validRe (owner r)" "validRe (name r)"
    by (simp_all only: validRe_iff simp_thms)
  then have "split (repoString r) (CHR ''/'') = [owner r, name r]"
    by (simp add: repoString_def split_format validRe_no_slash)
  with v show ?thesis
    by (simp add: repoStringToRepo_def validateRepo_def)
qed

theorem repoStringToRepo_repoString_witness:
  "repoStringToRepo (repoString \<lparr>owner = ''sourcecred'', name = ''example-github''\<rparr>)
     = Inr \<lparr>owner = ''sourcecred'', name = ''example-github''\<rparr>"
  by (rule repoStringToRepo_repoString) simp_all

text \<open>
  Claim C8. With the first segment of a token being what precedes its first slash and the
  second what follows it, \<^verbatim>\<open>repoStringToRepo\<close> throws exactly when the token does not
  have exactly one slash, or a segment is empty, or a segment has a character outside the
  class \<^verbatim>\<open>[A-Za-z0-9_-]\<close>; on every other token it returns the repository of the two
  segments.
\<close>

theorem repoStringToRepo_fails_iff:
  "let sl = CHR ''/'';
       seg1 = takeWhile (\<lambda>c. c \<noteq> sl) x;
       seg2 = tl (dropWhile (\<lambda>c. c \<noteq> sl) x);
       cls = set ''ABCDEFGHIJKLMNOPQRSTUVWXYZabcdefghijklmnopqrstuvwxyz0123456789_-'';
       bad = (count_list x sl \<noteq> 1 \<or> seg1 = [] \<or> seg2 = [] \<or>
              (\<exists>c\<in>set seg1. c \<notin> cls) \<or> (\<exists>c\<in>set seg2. c \<notin> cls))
   in (bad \<longrightarrow> (\<exists>e. repoStringToRepo x = Inl e)) \<and>
      (\<not> bad \<longrightarrow> repoStringToRepo x = Inr \<lparr>owner = seg1, name = seg2\<rparr>)"
proof -
  define cls where
    "cls = set ''ABCDEFGHIJKLMNOPQRSTUVWXYZabcdefghijklmnopqrstuvwxyz0123456789_-''"
  define seg1 where "seg1 = takeWhile (\<lambda>c. c \<noteq> CHR ''/'') x"
  define seg2 where "seg2 = tl (dropWhile (\<lambda>c. c \<noteq> CHR ''/'') x)"
  have valid: "validRe s \<longleftrightarrow> s \<noteq> [] \<and> \<not> (\<exists>c\<in>set s. c \<notin> cls)" for s
    unfolding validRe_iff cls_def by blast
  have goal:
    "(count_list x (CHR ''/'') \<noteq> 1 \<or> seg1 = [] \<or> seg2 = [] \<or>
        (\<exists>c\<in>set seg1. c \<notin> cls) \<or> (\<exists>c\<in>set seg2. c \<notin> cls)
      \<longrightarrow> (\<exists>e. repoStringToRepo x = Inl e)) \<and>
     (\<not> (count_list x (CHR ''/'') \<noteq> 1 \<or> seg1 = [] \<or> seg2 = [] \<or>
        (\<exists>c\<in>set seg1. c \<notin> cls) \<or> (\<exists>c\<in>set seg2. c \<notin> cls))
      \<longrightarrow> repoStringToRepo x = Inr \<lparr>owner = seg1, name = seg2\<rparr>)"
  proof (cases "count_list x (CHR ''/'') = 1")
    case True
    then have "split x (CHR ''/'') = [seg1, seg2]"
      unfolding seg1_def seg2_def by (rule split_one_sep)
    then have "repoStringToRepo x =
        (if \<not> validRe seg1 then Inl (InvalidRepositoryOwner seg1)
         else if \<not> validRe seg2 then Inl (InvalidRepositoryName seg2)
         else Inr \<lparr>owner = seg1, name = seg2\<rparr>)"
      by (simp add: repoStringToRepo_def validateRepo_def)
    with True show ?thesis
      by (simp add: valid)
  next
    case False
    then have "length (split x (CHR ''/'')) \<noteq> 2"
      by (simp add: length_split)
    then have "repoStringToRepo x = Inl (InvalidRepoString x)"
      by (simp add: repoStringToRepo_def)
    with False show ?thesis
      by simp
  qed
  then show ?thesis
    unfolding Let_def cls_def seg1_def seg2_def .
qed

theorem repoStringToRepo_fails_iff_witness:
  "repoStringToRepo ''sourcecred/example-github''
      = Inr \<lparr>owner = ''sourcecred'', name = ''example-github''\<rparr> \<and>
   (\<exists>e. repoStringToRepo ''sourcecred'' = Inl e) \<and>
   (\<exists>e. repoStringToRepo ''a/b/c'' = Inl e) \<and>
   (\<exists>e. repoStringToRepo ''/b'' = Inl e) \<and>
   (\<exists>e. repoStringToRepo ''a/'' = Inl e) \<and>
   (\<exists>e. repoStringToRepo ''a/b.c'' = Inl e)"
  using repoStringToRepo_fails_iff [of "''sourcecred/example-github''"]
    repoStringToRepo_fails_iff [of "''sourcecred''"]
    repoStringToRepo_fails_iff [of "''a/b/c''"]
    repoStringToRepo_fails_iff [of "''/b''"]
    repoStringToRepo_fails_iff [of "''a/''"]
    repoStringToRepo_fails_iff [of "''a/b.c''"]
  by (simp add: Let_def)

section \<open>Properties of the resolver\<close>

lemma loadStatus_resolved:
  assumes "fetch e (REPO_REGISTRY_API e) = Inr resp" "ok resp" "json resp = Inr j"
    and "fromJSON e j = Inr rs" "rs \<noteq> []" "get ls s REPO_KEY JNull = Inr pref"
  shows "loadStatus e ls s =
           VALID (sortBy rs owner name) (orElse (find (\<lambda>x. deepEqual x pref) rs) (last rs))"
  using assms by (simp add: loadStatus_def loadStatus_try_def)

lemma loadStatus_VALID_D:
  assumes "loadStatus e ls s = VALID av sel"
  shows "\<exists>resp j rs pref.
    fetch e (REPO_REGISTRY_API e) = Inr resp \<and> ok resp \<and> json resp = Inr j \<and>
    fromJSON e j = Inr rs \<and> rs \<noteq> [] \<and> get ls s REPO_KEY JNull = Inr pref \<and>
    av = sortBy rs owner name \<and> sel = orElse (find (\<lambda>x. deepEqual x pref) rs) (last rs)"
proof (cases "fetch e (REPO_REGISTRY_API e)")
  case (Inl err)
  with assms show ?thesis by (simp add: loadStatus_def loadStatus_try_def)
next
  case resp: (Inr resp)
  show ?thesis
  proof (cases "ok resp")
    case False
    with assms resp show ?thesis by (simp add: loadStatus_def loadStatus_try_def)
  next
    case ok: True
    show ?thesis
    proof (cases "json resp")
      case (Inl err)
      with assms resp ok show ?thesis by (simp add: loadStatus_def loadStatus_try_def)
    next
      case j: (Inr j)
      show ?thesis
      proof (cases "fromJSON e j")
        case (Inl err)
        with assms resp ok j show ?thesis by (simp add: loadStatus_def loadStatus_try_def)
      next
        case rs: (Inr rs)
        show ?thesis
        proof (cases "rs = []")
          case True
          with assms resp ok j rs show ?thesis by (simp add: loadStatus_def loadStatus_try_def)
        next
          case ne: False
          show ?thesis
          proof (cases "get ls s REPO_KEY JNull")
            case (Inl err)
            with assms resp ok j rs ne show ?thesis
              by (simp add: loadStatus_def loadStatus_try_def)
          next
            case (Inr pref)
            from loadStatus_resolved[OF resp ok j rs ne Inr] assms
            have "av = sortBy rs owner name"
              "sel = orElse (find (\<lambda>x. deepEqual x pref) rs) (last rs)"
              by simp_all
            with resp ok j rs ne Inr show ?thesis by blast
          qed
        qed
      qed
    qed
  qed
qed

lemma find_Some_set: "find P rs = Some x \<Longrightarrow> x \<in> set rs"
  by (induction rs) (auto split: if_splits)

lemma orElse_find_in_set: "rs \<noteq> [] \<Longrightarrow> orElse (find P rs) (last rs) \<in> set rs"
  by (cases "find P rs") (simp_all add: orElse_def find_Some_set)

lemma orElse_find_None: "\<forall>x\<in>set rs. \<not> P x \<Longrightarrow> orElse (find P rs) d = d"
  by (induction rs) (simp_all add: orElse_def)

lemma find_first:
  "\<exists>x\<in>set rs. P x \<Longrightarrow>
     \<exists>ys x zs. rs = ys @ x # zs \<and> (\<forall>y\<in>set ys. \<not> P y) \<and> P x \<and> find P rs = Some x"
proof (induction rs)
  case Nil
  then show ?case by simp
next
  case (Cons r rs)
  show ?case
  proof (cases "P r")
    case True
    then have "r # rs = [] @ r # rs \<and> (\<forall>y\<in>set []. \<not> P y) \<and> P r \<and> find P (r # rs) = Some r"
      by simp
    then show ?thesis by blast
  next
    case False
    with Cons.prems have "\<exists>x\<in>set rs. P x" by simp
    from Cons.IH[OF this] obtain ys x zs where
      *: "rs = ys @ x # zs" "\<forall>y\<in>set ys. \<not> P y" "P x" "find P rs = Some x"
      by blast
    with False have "r # rs = (r # ys) @ x # zs \<and> (\<forall>y\<in>set (r # ys). \<not> P y) \<and> P x \<and>
        find P (r # rs) = Some x"
      by simp
    then show ?thesis by blast
  qed
qed

lemma set_sortBy: "set (sortBy xs f g) = set xs"
  by (simp add: sortBy_def)

lemma mset_sortBy: "mset (sortBy xs f g) = mset xs"
  by (simp add: sortBy_def)

lemma sorted_sortBy:
  "sorted_wrt (\<lambda>a b. f a < f b \<or> (f a = f b \<and> g a \<le> g b)) (sortBy xs f g)"
proof -
  have "sorted (map (\<lambda>r. (f r, g r)) (sortBy xs f g))"
    by (simp add: sortBy_def)
  then have "sorted_wrt (\<lambda>a b. (f a, g a) \<le> (f b, g b)) (sortBy xs f g)"
    by (simp only: sorted_wrt_map)
  then show ?thesis
    by (rule sorted_wrt_mono_rel[rotated]) auto
qed

lemma deepEqual_repoValue: "deepEqual x (repoValue y) \<longleftrightarrow> x = y"
  by (auto simp: deepEqual_def repoValue_def)

lemma deepEqual_unique: "deepEqual x v \<Longrightarrow> deepEqual y v \<Longrightarrow> x = y"
  by (auto simp: deepEqual_def split: jsvalue.splits)

lemma deepEqual_JNull: "\<not> deepEqual x JNull"
  by (simp add: deepEqual_def)

lemma registry_resolved:
  "rs \<noteq> [] \<Longrightarrow> loadStatus (registry rs) memoryStore m =
     VALID (sortBy rs owner name)
       (orElse (find (\<lambda>x. deepEqual x (case m REPO_KEY of None \<Rightarrow> JNull | Some v \<Rightarrow> v)) rs) (last rs))"
  by (simp add: loadStatus_def loadStatus_try_def registry_def memoryStore_def)

lemma loadStatus_not_LOADING: "loadStatus e ls s \<noteq> LOADING"
  by (simp add: loadStatus_def loadStatus_try_def Let_def split: sum.splits)

text \<open>
  Claim C1. When the fetch succeeds and the decoded list is not empty, and the local store
  holds no preference (the read gives the default \<^verbatim>\<open>null\<close>) or no element of the list is
  deeply equal to the stored value, the status is \<^verbatim>\<open>VALID\<close> and its selected repository is
  the last element of the decoded list in the order of the response, which need not be the
  last element of the sorted list.
\<close>

theorem loadStatus_fallback_last:
  assumes "fetch e (REPO_REGISTRY_API e) = Inr resp" and "ok resp" and "json resp = Inr j"
    and "fromJSON e j = Inr rs" and "rs \<noteq> []"
    and "get ls s REPO_KEY JNull = Inr pref"
    and "pref = JNull \<or> (\<forall>x\<in>set rs. \<not> deepEqual x pref)"
  shows "loadStatus e ls s = VALID (sortBy rs owner name) (last rs)"
proof -
  from assms(7) have "\<forall>x\<in>set rs. \<not> deepEqual x pref"
    by (auto simp: deepEqual_JNull)
  then have "orElse (find (\<lambda>x. deepEqual x pref) rs) (last rs) = last rs"
    by (rule orElse_find_None)
  with loadStatus_resolved[OF assms(1-6)] show ?thesis by simp
qed

theorem loadStatus_fallback_last_witness:
  "loadStatus (registry [\<lparr>owner = ''b'', name = ''m''\<rparr>, \<lparr>owner = ''a'', name = ''a''\<rparr>])
      memoryStore Map.empty
     = VALID [\<lparr>owner = ''a'', name = ''a''\<rparr>, \<lparr>owner = ''b'', name = ''m''\<rparr>]
         \<lparr>owner = ''a'', name = ''a''\<rparr> \<and>
   loadStatus (registry [\<lparr>owner = ''b'', name = ''m''\<rparr>, \<lparr>owner = ''a'', name = ''a''\<rparr>])
      memoryStore [REPO_KEY \<mapsto> repoValue \<lparr>owner = ''c'', name = ''c''\<rparr>]
     = VALID [\<lparr>owner = ''a'', name = ''a''\<rparr>, \<lparr>owner = ''b'', name = ''m''\<rparr>]
         \<lparr>owner = ''a'', name = ''a''\<rparr> \<and>
   last [\<lparr>owner = ''a'', name = ''a''\<rparr>, \<lparr>owner = ''b'', name = ''m''\<rparr>]
     \<noteq> \<lparr>owner = ''a'', name = ''a''\<rparr>"
  using
    loadStatus_fallback_last [of "registry [\<lparr>owner = ''b'', name = ''m''\<rparr>, \<lparr>owner = ''a'', name = ''a''\<rparr>]"
      "\<lparr>ok = True, json = Inr (JArray [])\<rparr>" "JArray []"
      "[\<lparr>owner = ''b'', name = ''m''\<rparr>, \<lparr>owner = ''a'', name = ''a''\<rparr>]"
      memoryStore Map.empty JNull]
    loadStatus_fallback_last [of "registry [\<lparr>owner = ''b'', name = ''m''\<rparr>, \<lparr>owner = ''a'', name = ''a''\<rparr>]"
      "\<lparr>ok = True, json = Inr (JArray [])\<rparr>" "JArray []"
      "[\<lparr>owner = ''b'', name = ''m''\<rparr>, \<lparr>owner = ''a'', name = ''a''\<rparr>]"
      memoryStore "[REPO_KEY \<mapsto> repoValue \<lparr>owner = ''c'', name = ''c''\<rparr>]"
      "repoValue \<lparr>owner = ''c'', name = ''c''\<rparr>"]
  by (simp add: registry_def memoryStore_def sortBy_def deepEqual_repoValue)

text \<open>
  Claim C2. When the fetch succeeds and some element of the decoded list is deeply equal to
  the stored preference, the selected repository is the first such element of the list in the
  order of the response; it is the only value in the list equal to the preference, so that
  the choice is the same for every order of the list.
\<close>

theorem loadStatus_selects_first_match:
  assumes "fetch e (REPO_REGISTRY_API e) = Inr resp" and "ok resp" and "json resp = Inr j"
    and "fromJSON e j = Inr rs" and "rs \<noteq> []"
    and "get ls s REPO_KEY JNull = Inr pref"
    and "\<exists>x\<in>set rs. deepEqual x pref"
  shows "\<exists>ys x zs. rs = ys @ x # zs \<and> (\<forall>y\<in>set ys. \<not> deepEqual y pref) \<and> deepEqual x pref \<and>
           (\<forall>y\<in>set rs. deepEqual y pref \<longrightarrow> y = x) \<and>
           loadStatus e ls s = VALID (sortBy rs owner name) x"
proof -
  from find_first[OF assms(7)] obtain ys x zs where
    *: "rs = ys @ x # zs" "\<forall>y\<in>set ys. \<not> deepEqual y pref" "deepEqual x pref"
      "find (\<lambda>x. deepEqual x pref) rs = Some x"
    by blast
  from *(3) have "\<forall>y\<in>set rs. deepEqual y pref \<longrightarrow> y = x"
    by (blast intro: deepEqual_unique)
  moreover from loadStatus_resolved[OF assms(1-6)] *(4)
  have "loadStatus e ls s = VALID (sortBy rs owner name) x"
    by (simp add: orElse_def)
  ultimately show ?thesis using *(1-3) by blast
qed

theorem loadStatus_selects_first_match_witness:
  "loadStatus
     (registry [\<lparr>owner = ''a'', name = ''z''\<rparr>, \<lparr>owner = ''b'', name = ''m''\<rparr>,
                \<lparr>owner = ''a'', name = ''a''\<rparr>])
     memoryStore [REPO_KEY \<mapsto> repoValue \<lparr>owner = ''b'', name = ''m''\<rparr>]
   = VALID [\<lparr>owner = ''a'', name = ''a''\<rparr>, \<lparr>owner = ''a'', name = ''z''\<rparr>,
            \<lparr>owner = ''b'', name = ''m''\<rparr>]
       \<lparr>owner = ''b'', name = ''m''\<rparr>"
proof -
  let ?rs = "[\<lparr>owner = ''a'', name = ''z''\<rparr>, \<lparr>owner = ''b'', name = ''m''\<rparr>,
              \<lparr>owner = ''a'', name = ''a''\<rparr>]"
  let ?pref = "repoValue \<lparr>owner = ''b'', name = ''m''\<rparr>"
  have "\<exists>ys x zs. ?rs = ys @ x # zs \<and> (\<forall>y\<in>set ys. \<not> deepEqual y ?pref) \<and> deepEqual x ?pref \<and>
           (\<forall>y\<in>set ?rs. deepEqual y ?pref \<longrightarrow> y = x) \<and>
           loadStatus (registry ?rs) memoryStore [REPO_KEY \<mapsto> ?pref]
             = VALID (sortBy ?rs owner name) x"
    by (rule loadStatus_selects_first_match
          [where resp = "\<lparr>ok = True, json = Inr (JArray [])\<rparr>" and j = "JArray []"])
       (simp_all add: registry_def memoryStore_def deepEqual_repoValue)
  then obtain x where "deepEqual x ?pref"
    and "loadStatus (registry ?rs) memoryStore [REPO_KEY \<mapsto> ?pref]
           = VALID (sortBy ?rs owner name) x"
    by blast
  then show ?thesis
    by (simp add: deepEqual_repoValue sortBy_def)
qed

text \<open>
  Claim C5. \<^verbatim>\<open>loadStatus\<close> always returns a status: a response that is not a success
  gives \<^verbatim>\<open>FAILURE\<close>, and so does an exception from the fetch, from decoding the body, from
  \<^verbatim>\<open>fromJSON\<close>, from the read of the local store, and any exception that leaves the
  \<^verbatim>\<open>try\<close> block. The status returned is never \<^verbatim>\<open>LOADING\<close>.
\<close>

theorem loadStatus_never_throws:
  "(\<forall>err. fetch e (REPO_REGISTRY_API e) = Inl err \<longrightarrow> loadStatus e ls s = FAILURE) \<and>
   (\<forall>resp. fetch e (REPO_REGISTRY_API e) = Inr resp \<and> \<not> ok resp \<longrightarrow>
      loadStatus e ls s = FAILURE) \<and>
   (\<forall>resp err. fetch e (REPO_REGISTRY_API e) = Inr resp \<and> ok resp \<and> json resp = Inl err \<longrightarrow>
      loadStatus e ls s = FAILURE) \<and>
   (\<forall>resp j err. fetch e (REPO_REGISTRY_API e) = Inr resp \<and> ok resp \<and> json resp = Inr j \<and>
      fromJSON e j = Inl err \<longrightarrow> loadStatus e ls s = FAILURE) \<and>
   (\<forall>resp j rs err. fetch e (REPO_REGISTRY_API e) = Inr resp \<and> ok resp \<and> json resp = Inr j \<and>
      fromJSON e j = Inr rs \<and> rs \<noteq> [] \<and> get ls s REPO_KEY JNull = Inl err \<longrightarrow>
      loadStatus e ls s = FAILURE) \<and>
   (\<forall>err. loadStatus_try e ls s = Inl err \<longrightarrow> loadStatus e ls s = FAILURE) \<and>
   loadStatus e ls s \<noteq> LOADING"
proof -
  have 1: "loadStatus e ls s = FAILURE" if "fetch e (REPO_REGISTRY_API e) = Inl err" for err
    using that by (simp add: loadStatus_def loadStatus_try_def)
  have 2: "loadStatus e ls s = FAILURE"
    if "fetch e (REPO_REGISTRY_API e) = Inr resp" "\<not> ok resp" for resp
    using that by (simp add: loadStatus_def loadStatus_try_def)
  have 3: "loadStatus e ls s = FAILURE"
    if "fetch e (REPO_REGISTRY_API e) = Inr resp" "ok resp" "json resp = Inl err" for resp err
    using that by (simp add: loadStatus_def loadStatus_try_def)
  have 4: "loadStatus e ls s = FAILURE"
    if "fetch e (REPO_REGISTRY_API e) = Inr resp" "ok resp" "json resp = Inr j"
      "fromJSON e j = Inl err" for resp j err
    using that by (simp add: loadStatus_def loadStatus_try_def)
  have 5: "loadStatus e ls s = FAILURE"
    if "fetch e (REPO_REGISTRY_API e) = Inr resp" "ok resp" "json resp = Inr j"
      "fromJSON e j = Inr rs" "rs \<noteq> []" "get ls s REPO_KEY JNull = Inl err" for resp j rs err
    using that by (simp add: loadStatus_def loadStatus_try_def)
  have 6: "loadStatus e ls s = FAILURE" if "loadStatus_try e ls s = Inl err" for err
    using that by (simp add: loadStatus_def)
  from 1 2 3 4 5 6 loadStatus_not_LOADING[of e ls s] show ?thesis
    by blast
qed

theorem loadStatus_never_throws_witness:
  "loadStatus \<lparr>REPO_REGISTRY_API = ''/api/repos'', fetch = (\<lambda>url. Inl (Rejected ''network'')),
               fromJSON = (\<lambda>j. Inr [])\<rparr> memoryStore Map.empty = FAILURE \<and>
   loadStatus registryDown memoryStore Map.empty = FAILURE \<and>
   loadStatus \<lparr>REPO_REGISTRY_API = ''/api/repos'',
               fetch = (\<lambda>url. Inr \<lparr>ok = True, json = Inl (Rejected ''not JSON'')\<rparr>),
               fromJSON = (\<lambda>j. Inr [])\<rparr> memoryStore Map.empty = FAILURE \<and>
   loadStatus \<lparr>REPO_REGISTRY_API = ''/api/repos'',
               fetch = (\<lambda>url. Inr \<lparr>ok = True, json = Inr JNull\<rparr>),
               fromJSON = (\<lambda>j. Inl (Rejected ''not a registry''))\<rparr> memoryStore Map.empty
     = FAILURE \<and>
   loadStatus (registry [\<lparr>owner = ''a'', name = ''a''\<rparr>])
      \<lparr>get = (\<lambda>s k d. Inl (Rejected ''storage'')), set' = (\<lambda>s k v. s)\<rparr> () = FAILURE"
  using
    loadStatus_never_throws [where e = "\<lparr>REPO_REGISTRY_API = ''/api/repos'',
        fetch = (\<lambda>url. Inl (Rejected ''network'')), fromJSON = (\<lambda>j. Inr [])\<rparr>"
      and ls = memoryStore and s = Map.empty]
    loadStatus_never_throws [where e = registryDown and ls = memoryStore and s = Map.empty]
    loadStatus_never_throws [where e = "\<lparr>REPO_REGISTRY_API = ''/api/repos'',
        fetch = (\<lambda>url. Inr \<lparr>ok = True, json = Inl (Rejected ''not JSON'')\<rparr>),
        fromJSON = (\<lambda>j. Inr [])\<rparr>"
      and ls = memoryStore and s = Map.empty]
    loadStatus_never_throws [where e = "\<lparr>REPO_REGISTRY_API = ''/api/repos'',
        fetch = (\<lambda>url. Inr \<lparr>ok = True, json = Inr JNull\<rparr>),
        fromJSON = (\<lambda>j. Inl (Rejected ''not a registry''))\<rparr>"
      and ls = memoryStore and s = Map.empty]
    loadStatus_never_throws [where e = "registry [\<lparr>owner = ''a'', name = ''a''\<rparr>]"
      and ls = "\<lparr>get = (\<lambda>s k d. Inl (Rejected ''storage'')), set' = (\<lambda>s k v. s)\<rparr>" and s = "()"]
  by (simp add: registry_def registryDown_def)

text \<open>
  Claim C6. The \<^verbatim>\<open>availableRepos\<close> of a \<^verbatim>\<open>VALID\<close> status returned by \<^verbatim>\<open>loadStatus\<close>
  are the decoded repositories, in ascending order of owner and, among equal owners, in
  ascending order of name, whatever the order of the decoded list.
\<close>

theorem availableRepos_sorted:
  assumes "loadStatus e ls s = VALID av sel"
  shows "sorted_wrt (\<lambda>a b. owner a < owner b \<or> (owner a = owner b \<and> name a \<le> name b)) av \<and>
         (\<exists>resp j rs. fetch e (REPO_REGISTRY_API e) = Inr resp \<and> json resp = Inr j \<and>
            fromJSON e j = Inr rs \<and> mset av = mset rs)"
proof -
  from loadStatus_VALID_D[OF assms] obtain resp j rs where
    *: "fetch e (REPO_REGISTRY_API e) = Inr resp" "json resp = Inr j" "fromJSON e j = Inr rs"
      "av = sortBy rs owner name"
    by blast
  have "sorted_wrt (\<lambda>a b. owner a < owner b \<or> (owner a = owner b \<and> name a \<le> name b)) av"
    unfolding *(4) by (rule sorted_sortBy)
  moreover have "mset av = mset rs"
    unfolding *(4) by (rule mset_sortBy)
  ultimately show ?thesis using *(1-3) by blast
qed

theorem availableRepos_sorted_witness:
  "loadStatus (registry [\<lparr>owner = ''b'', name = ''m''\<rparr>, \<lparr>owner = ''a'', name = ''z''\<rparr>,
                         \<lparr>owner = ''a'', name = ''a''\<rparr>]) memoryStore Map.empty
     = VALID [\<lparr>owner = ''a'', name = ''a''\<rparr>, \<lparr>owner = ''a'', name = ''z''\<rparr>,
              \<lparr>owner = ''b'', name = ''m''\<rparr>] \<lparr>owner = ''a'', name = ''a''\<rparr> \<and>
   sorted_wrt (\<lambda>a b. owner a < owner b \<or> (owner a = owner b \<and> name a \<le> name b))
     [\<lparr>owner = ''a'', name = ''a''\<rparr>, \<lparr>owner = ''a'', name = ''z''\<rparr>,
      \<lparr>owner = ''b'', name = ''m''\<rparr>]"
proof -
  have eq: "loadStatus (registry [\<lparr>owner = ''b'', name = ''m''\<rparr>, \<lparr>owner = ''a'', name = ''z''\<rparr>,
                         \<lparr>owner = ''a'', name = ''a''\<rparr>]) memoryStore Map.empty
     = VALID [\<lparr>owner = ''a'', name = ''a''\<rparr>, \<lparr>owner = ''a'', name = ''z''\<rparr>,
              \<lparr>owner = ''b'', name = ''m''\<rparr>] \<lparr>owner = ''a'', name = ''a''\<rparr>"
    by (simp add: registry_resolved sortBy_def orElse_def deepEqual_JNull)
  from availableRepos_sorted[OF eq] eq show ?thesis by blast
qed

text \<open>
  Claim C10. When the fetch succeeds and the decoded list is not empty, the status is
  \<^verbatim>\<open>VALID\<close> for every value the read of the local store returns: the stored value is only
  compared, a value equal to no element gives the last element of the list, and no content of
  a store in memory leads to \<^verbatim>\<open>FAILURE\<close>.
\<close>

theorem stored_value_never_fails:
  assumes "fetch e (REPO_REGISTRY_API e) = Inr resp" and "ok resp" and "json resp = Inr j"
    and "fromJSON e j = Inr rs" and "rs \<noteq> []"
  shows "(\<forall>v. get ls s REPO_KEY JNull = Inr v \<longrightarrow>
            (\<exists>sel. loadStatus e ls s = VALID (sortBy rs owner name) sel \<and> sel \<in> set rs \<and>
               ((\<forall>x\<in>set rs. \<not> deepEqual x v) \<longrightarrow> sel = last rs))) \<and>
         (\<forall>m. \<exists>sel. loadStatus e memoryStore m = VALID (sortBy rs owner name) sel \<and> sel \<in> set rs)"
proof -
  have "\<exists>sel. loadStatus e ls s = VALID (sortBy rs owner name) sel \<and> sel \<in> set rs \<and>
               ((\<forall>x\<in>set rs. \<not> deepEqual x v) \<longrightarrow> sel = last rs)"
    if "get ls s REPO_KEY JNull = Inr v" for v
    using loadStatus_resolved[OF assms that] assms(5)
    by (simp add: orElse_find_in_set orElse_find_None)
  moreover have "\<exists>sel. loadStatus e memoryStore m = VALID (sortBy rs owner name) sel \<and>
      sel \<in> set rs" for m
  proof -
    have "get memoryStore m REPO_KEY JNull
        = Inr (case m REPO_KEY of None \<Rightarrow> JNull | Some v \<Rightarrow> v)"
      by (simp add: memoryStore_def)
    from loadStatus_resolved[OF assms this] assms(5) show ?thesis
      by (simp add: orElse_find_in_set)
  qed
  ultimately show ?thesis by blast
qed

theorem stored_value_never_fails_witness:
  "loadStatus (registry [\<lparr>owner = ''b'', name = ''m''\<rparr>, \<lparr>owner = ''a'', name = ''a''\<rparr>])
      memoryStore Map.empty
     = VALID [\<lparr>owner = ''a'', name = ''a''\<rparr>, \<lparr>owner = ''b'', name = ''m''\<rparr>]
         \<lparr>owner = ''a'', name = ''a''\<rparr> \<and>
   loadStatus (registry [\<lparr>owner = ''b'', name = ''m''\<rparr>, \<lparr>owner = ''a'', name = ''a''\<rparr>])
      memoryStore [REPO_KEY \<mapsto> JObject [(''owner'', JNumber 3)]]
     = VALID [\<lparr>owner = ''a'', name = ''a''\<rparr>, \<lparr>owner = ''b'', name = ''m''\<rparr>]
         \<lparr>owner = ''a'', name = ''a''\<rparr> \<and>
   loadStatus (registry [\<lparr>owner = ''b'', name = ''m''\<rparr>, \<lparr>owner = ''a'', name = ''a''\<rparr>])
      memoryStore [REPO_KEY \<mapsto> repoValue \<lparr>owner = ''not/valid'', name = ''''\<rparr>]
     = VALID [\<lparr>owner = ''a'', name = ''a''\<rparr>, \<lparr>owner = ''b'', name = ''m''\<rparr>]
         \<lparr>owner = ''a'', name = ''a''\<rparr>"
proof -
  let ?rs = "[\<lparr>owner = ''b'', name = ''m''\<rparr>, \<lparr>owner = ''a'', name = ''a''\<rparr>]"
  have s: "sortBy ?rs owner name = [\<lparr>owner = ''a'', name = ''a''\<rparr>, \<lparr>owner = ''b'', name = ''m''\<rparr>]"
    by (simp add: sortBy_def)
  have *: "\<forall>v. get memoryStore m REPO_KEY JNull = Inr v \<longrightarrow>
            (\<exists>sel. loadStatus (registry ?rs) memoryStore m = VALID (sortBy ?rs owner name) sel \<and>
               sel \<in> set ?rs \<and> ((\<forall>x\<in>set ?rs. \<not> deepEqual x v) \<longrightarrow> sel = last ?rs))"
    for m
    by (rule stored_value_never_fails
          [where resp = "\<lparr>ok = True, json = Inr (JArray [])\<rparr>" and j = "JArray []",
            THEN conjunct1])
       (simp_all add: registry_def)
  show ?thesis
    using *[of Map.empty] *[of "[REPO_KEY \<mapsto> JObject [(''owner'', JNumber 3)]]"]
      *[of "[REPO_KEY \<mapsto> repoValue \<lparr>owner = ''not/valid'', name = ''''\<rparr>]"]
    by (simp add: s memoryStore_def deepEqual_repoValue) (simp add: deepEqual_def)
qed

section \<open>Properties of the controller\<close>

lemma status_onChange:
  "status (onChange r c) = (case status c of VALID av old \<Rightarrow> VALID av r | st \<Rightarrow> st)"
  by (simp add: onChange_def split: status.splits)

lemma store_onChange: "store (onChange r c) = store c"
  by (simp add: onChange_def split: status.splits)

lemma notified_onChange: "notified (onChange r c) = notified c @ [r]"
  by (simp add: onChange_def split: status.splits)

lemma status_onUserSelect: "status (onUserSelect ls r c) = status (onChange r c)"
  by (simp add: onUserSelect_def Let_def)

lemma store_onUserSelect:
  "store (onUserSelect ls r c) = set' ls (store c) REPO_KEY (repoValue r)"
  by (simp add: onUserSelect_def Let_def store_onChange)

lemma notified_onUserSelect: "notified (onUserSelect ls r c) = notified c @ [r]"
  by (simp add: onUserSelect_def Let_def notified_onChange)

text \<open>
  The selector offers a selection only in a \<^verbatim>\<open>VALID\<close> status, and a token it offers parses
  back to a member of \<^verbatim>\<open>availableRepos\<close> when it parses at all.
\<close>

lemma renderSelect_Some_iff: "renderSelect st \<noteq> None \<longleftrightarrow> (\<exists>av sel. st = VALID av sel)"
  by (cases st) (simp_all add: renderSelect_def)

lemma repoStringToRepo_repoString_Inr:
  fixes r r' :: repo
  assumes "repoStringToRepo (repoString r) = Inr r'"
  shows "r' = r"
proof -
  from assms have "length (split (repoString r) (CHR ''/'')) = 2"
    by (auto simp: repoStringToRepo_def Let_def split: if_splits)
  then have "count_list (owner r) (CHR ''/'') + count_list (name r) (CHR ''/'') = 0"
    by (simp add: length_split repoString_def)
  then have "CHR ''/'' \<notin> set (owner r)" "CHR ''/'' \<notin> set (name r)"
    by (simp_all add: count_list_0_iff)
  then have "split (repoString r) (CHR ''/'') = [owner r, name r]"
    by (simp add: repoString_def split_format)
  with assms show ?thesis
    by (auto simp: repoStringToRepo_def Let_def split: if_splits sum.splits)
qed

lemma select_onChange_offered:
  assumes "status c = VALID av old"
    and "renderSelect (status c) = Some tokens" and "token \<in> set tokens"
    and "select_onChange ls token c = Inr c'"
  shows "\<exists>r\<in>set av. status c' = VALID av r"
proof -
  from assms(1-3) obtain r where r: "r \<in> set av" "token = repoString r"
    by (auto simp: renderSelect_def)
  from assms(4) obtain r' where r': "repoStringToRepo token = Inr r'"
    "c' = onUserSelect ls r' c"
    by (auto simp: select_onChange_def split: sum.splits)
  from r(2) r'(1) have "r' = r"
    by (simp add: repoStringToRepo_repoString_Inr)
  with r(1) r'(2) assms(1) show ?thesis
    by (simp add: status_onUserSelect status_onChange)
qed


text \<open>
  Claim C3, as stated, fails: a selection of the user in the status \<^verbatim>\<open>LOADING\<close>,
  \<^verbatim>\<open>NO_REPOS\<close> or \<^verbatim>\<open>FAILURE\<close> writes the repository to the local store all the same.
\<close>

theorem onUserSelect_write_counterexample:
  "status (constructor Map.empty) = LOADING \<and>
   store (constructor Map.empty) REPO_KEY = None \<and>
   store (onUserSelect memoryStore \<lparr>owner = ''a'', name = ''a''\<rparr> (constructor Map.empty)) REPO_KEY
     = Some (repoValue \<lparr>owner = ''a'', name = ''a''\<rparr>) \<and>
   store (onUserSelect memoryStore \<lparr>owner = ''a'', name = ''a''\<rparr>
            \<lparr>status = NO_REPOS, store = Map.empty, notified = []\<rparr>) REPO_KEY
     = Some (repoValue \<lparr>owner = ''a'', name = ''a''\<rparr>) \<and>
   store (onUserSelect memoryStore \<lparr>owner = ''a'', name = ''a''\<rparr>
            \<lparr>status = FAILURE, store = Map.empty, notified = []\<rparr>) REPO_KEY
     = Some (repoValue \<lparr>owner = ''a'', name = ''a''\<rparr>)"
  by (simp add: constructor_def onUserSelect_def onChange_def memoryStore_def Let_def)

text \<open>
  Claim C3, amended. A selection of the user writes the repository to the local store under
  \<^verbatim>\<open>REPO_KEY\<close> whatever the status is, and a store in memory then reads it back; only the
  replacement of \<^verbatim>\<open>selectedRepo\<close> in the status depends on the status being \<^verbatim>\<open>VALID\<close>.
\<close>

theorem onUserSelect_writes_always:
  "store (onUserSelect ls r c) = set' ls (store c) REPO_KEY (repoValue r) \<and>
   get memoryStore (store (onUserSelect memoryStore r c')) REPO_KEY JNull = Inr (repoValue r) \<and>
   status (onUserSelect ls r c) = (case status c of VALID av old \<Rightarrow> VALID av r | st \<Rightarrow> st)"
  by (simp add: store_onUserSelect status_onUserSelect status_onChange memoryStore_def)

theorem onUserSelect_writes_always_witness:
  "store (onUserSelect memoryStore \<lparr>owner = ''a'', name = ''a''\<rparr>
            \<lparr>status = FAILURE, store = [REPO_KEY \<mapsto> JNull], notified = []\<rparr>)
     = [REPO_KEY \<mapsto> repoValue \<lparr>owner = ''a'', name = ''a''\<rparr>] \<and>
   status (onUserSelect memoryStore \<lparr>owner = ''a'', name = ''a''\<rparr>
            \<lparr>status = FAILURE, store = [REPO_KEY \<mapsto> JNull], notified = []\<rparr>)
     = FAILURE"
  using onUserSelect_writes_always [where ls = memoryStore
      and r = "\<lparr>owner = ''a'', name = ''a''\<rparr>"
      and c = "\<lparr>status = FAILURE, store = [REPO_KEY \<mapsto> JNull], notified = []\<rparr>"]
  by (simp add: memoryStore_def)

text \<open>
  Claim C4, as stated, fails: after a successful resolution, a selection of a repository that
  is not in the registry leaves a \<^verbatim>\<open>VALID\<close> status whose selected repository is not among
  its available ones.
\<close>

theorem selectedRepo_member_counterexample:
  "status (onUserSelect memoryStore \<lparr>owner = ''b'', name = ''b''\<rparr>
      (componentDidMount (registry [\<lparr>owner = ''a'', name = ''a''\<rparr>]) memoryStore
         (constructor Map.empty)))
     = VALID [\<lparr>owner = ''a'', name = ''a''\<rparr>] \<lparr>owner = ''b'', name = ''b''\<rparr> \<and>
   \<lparr>owner = ''b'', name = ''b''\<rparr> \<notin> set [\<lparr>owner = ''a'', name = ''a''\<rparr>]"
  by (simp add: status_onUserSelect status_onChange componentDidMount_def constructor_def
      registry_resolved sortBy_def orElse_def deepEqual_def REPO_KEY_def)

text \<open>
  Claim C4, amended. The selected repository of a \<^verbatim>\<open>VALID\<close> status returned by
  \<^verbatim>\<open>loadStatus\<close> is a member of its available repositories. A selection of the user in a
  \<^verbatim>\<open>VALID\<close> status keeps the available repositories and makes the repository it is given
  the selected one, with no check: the new status has its selected repository among the
  available ones exactly when the given repository is one of them.
\<close>

theorem selectedRepo_member:
  "(\<forall>av sel. loadStatus e ls s = VALID av sel \<longrightarrow> sel \<in> set av) \<and>
   (\<forall>av old. status c = VALID av old \<longrightarrow>
      status (onUserSelect ls r c) = VALID av r \<and>
      (selectedRepo (status (onUserSelect ls r c))
         \<in> set (availableRepos (status (onUserSelect ls r c))) \<longleftrightarrow> r \<in> set av))"
proof -
  have "sel \<in> set av" if "loadStatus e ls s = VALID av sel" for av sel
  proof -
    from loadStatus_VALID_D[OF that] obtain rs pref where
      "rs \<noteq> []" "av = sortBy rs owner name"
      "sel = orElse (find (\<lambda>x. deepEqual x pref) rs) (last rs)"
      by blast
    then show ?thesis by (simp add: set_sortBy orElse_find_in_set)
  qed
  then show ?thesis
    by (simp add: status_onUserSelect status_onChange)
qed

theorem selectedRepo_member_witness:
  "selectedRepo (loadStatus (registry [\<lparr>owner = ''b'', name = ''m''\<rparr>, \<lparr>owner = ''a'', name = ''a''\<rparr>])
      memoryStore Map.empty)
     \<in> set (availableRepos (loadStatus
          (registry [\<lparr>owner = ''b'', name = ''m''\<rparr>, \<lparr>owner = ''a'', name = ''a''\<rparr>])
          memoryStore Map.empty)) \<and>
   status (onUserSelect memoryStore \<lparr>owner = ''b'', name = ''m''\<rparr>
      \<lparr>status = VALID [\<lparr>owner = ''a'', name = ''a''\<rparr>, \<lparr>owner = ''b'', name = ''m''\<rparr>]
                  \<lparr>owner = ''a'', name = ''a''\<rparr>,
        store = Map.empty, notified = []\<rparr>)
     = VALID [\<lparr>owner = ''a'', name = ''a''\<rparr>, \<lparr>owner = ''b'', name = ''m''\<rparr>]
         \<lparr>owner = ''b'', name = ''m''\<rparr>"
  using
    selectedRepo_member [where e = "registry [\<lparr>owner = ''b'', name = ''m''\<rparr>, \<lparr>owner = ''a'', name = ''a''\<rparr>]"
      and ls = memoryStore and s = Map.empty and r = "\<lparr>owner = ''b'', name = ''m''\<rparr>"
      and c = "\<lparr>status = VALID [\<lparr>owner = ''a'', name = ''a''\<rparr>, \<lparr>owner = ''b'', name = ''m''\<rparr>]
                  \<lparr>owner = ''a'', name = ''a''\<rparr>,
        store = Map.empty, notified = []\<rparr>"]
  by (simp add: registry_resolved)

text \<open>
  Claim C9. A new component has notified nobody. Once \<^verbatim>\<open>loadStatus\<close> has settled, the
  callback of the host is called, once and with the selected repository, exactly when the
  status is \<^verbatim>\<open>VALID\<close>; the status then is never \<^verbatim>\<open>LOADING\<close>. Every selection of the
  user is passed to the callback, whatever the status is.
\<close>

theorem host_notifications:
  "notified (constructor s) = [] \<and>
   (\<forall>av sel. loadStatus e ls (store c) = VALID av sel \<longrightarrow>
      notified (componentDidMount e ls c) = notified c @ [sel]) \<and>
   ((\<forall>av sel. loadStatus e ls (store c) \<noteq> VALID av sel) \<longrightarrow>
      notified (componentDidMount e ls c) = notified c) \<and>
   status (componentDidMount e ls c) = loadStatus e ls (store c) \<and>
   loadStatus e ls (store c) \<noteq> LOADING \<and>
   notified (onUserSelect ls r c) = notified c @ [r]"
  by (simp add: loadStatus_not_LOADING notified_onUserSelect constructor_def)
     (simp add: componentDidMount_def Let_def split: status.splits)

theorem host_notifications_witness:
  "notified (componentDidMount (registry [\<lparr>owner = ''a'', name = ''a''\<rparr>]) memoryStore
      (constructor Map.empty)) = [\<lparr>owner = ''a'', name = ''a''\<rparr>] \<and>
   notified (componentDidMount registryDown memoryStore (constructor Map.empty)) = [] \<and>
   notified (componentDidMount (registry []) memoryStore (constructor Map.empty)) = [] \<and>
   notified (onUserSelect memoryStore \<lparr>owner = ''a'', name = ''a''\<rparr>
      (componentDidMount registryDown memoryStore (constructor Map.empty)))
     = [\<lparr>owner = ''a'', name = ''a''\<rparr>]"
proof -
  have v: "loadStatus (registry [\<lparr>owner = ''a'', name = ''a''\<rparr>]) memoryStore Map.empty
      = VALID [\<lparr>owner = ''a'', name = ''a''\<rparr>] \<lparr>owner = ''a'', name = ''a''\<rparr>"
    by (simp add: registry_resolved sortBy_def orElse_def deepEqual_JNull)
  have d: "loadStatus registryDown memoryStore Map.empty = FAILURE"
    by (simp add: loadStatus_def loadStatus_try_def registryDown_def)
  have n: "loadStatus (registry []) memoryStore Map.empty = NO_REPOS"
    by (simp add: loadStatus_def loadStatus_try_def registry_def)
  show ?thesis
    using
      host_notifications [where e = "registry [\<lparr>owner = ''a'', name = ''a''\<rparr>]"
        and ls = memoryStore and c = "constructor Map.empty" and s = Map.empty]
      host_notifications [where e = registryDown and ls = memoryStore
        and c = "constructor Map.empty" and s = Map.empty]
      host_notifications [where e = "registry []" and ls = memoryStore
        and c = "constructor Map.empty" and s = Map.empty]
      host_notifications [where e = registryDown and ls = memoryStore
        and c = "componentDidMount registryDown memoryStore (constructor Map.empty)"
        and s = Map.empty and r = "\<lparr>owner = ''a'', name = ''a''\<rparr>"]
    by (simp add: v d n constructor_def)
qed

end
